theory Spec2Isabelle
  imports Main "HOL-Library.AList"
begin

section \<open>FVS states: the data model of \<^verbatim>\<open>fvs/state.py\<close>\<close>

text \<open>
  \<^verbatim>\<open>FVSState\<close> keeps a dictionary \<^verbatim>\<open>__files\<close> with the five keys
  \<^verbatim>\<open>count\<close>, \<^verbatim>\<open>added\<close>, \<^verbatim>\<open>modified\<close>, \<^verbatim>\<open>removed\<close> and \<^verbatim>\<open>intact\<close>. Each of the
  four partitions is a dictionary from the md5 of a file to the entry
  \<^verbatim>\<open>{"file_name": ..., "md5": ..., "relative_path": ...}\<close>.

  An entry is a record of three strings (the annotations \<^verbatim>\<open>md5: str\<close> and
  \<^verbatim>\<open>relative_path: str\<close> of the source). A Python dictionary keeps its keys in
  insertion order, and \<^verbatim>\<open>has_relative_path\<close> and \<^verbatim>\<open>break_references\<close> walk
  \<^verbatim>\<open>.values()\<close> in that order, so a partition is an association list;
  \<^verbatim>\<open>d[k] = v\<close> is \<^const>\<open>AList.update\<close>, which replaces the value of a key that
  is there and appends a new key at the end.
\<close>

record file_entry =
  file_name :: string
  md5 :: string
  relative_path :: string

type_synonym partition = "(string \<times> file_entry) list"

text \<open>
  The values an unstaged dictionary can hold under one of its keys: \<^verbatim>\<open>None\<close>,
  a boolean, an integer, a string, or a sequence of file entries. Floating
  point numbers are left out. \<^verbatim>\<open>count\<close> is copied into the state as it
  comes, so the state's count is such a value too.
\<close>

datatype pyval =
    PyNone
  | PyBool bool
  | PyInt int
  | PyStr string
  | PySeq "file_entry list"

record fvs_files =
  count :: pyval
  added :: partition
  modified :: partition
  removed :: partition
  intact :: partition

text \<open>
  The object itself. A state directory is \<^verbatim>\<open>os.path.join(states_path, str(id))\<close>,
  so a path is represented by the id that names it.
\<close>

record fvs_state =
  files :: fvs_files
  state_id :: "int option"
  state_path :: "int option"

datatype error =
    FVSCallerWrongClass string
  | FVSCommittingToExistingState
  | FVSEmptyCommitMessage
  | FVSWrongUnstagedDict
  | FVSStateNotFound int
  | FVSUnsupportedKey "string list"
  | KeyError string
  | TypeError
  | AttributeError
  | DataFailure

subsection \<open>The collaborators: repository, content store, persisted metadata\<close>

text \<open>
  \<^verbatim>\<open>FVSFile\<close>, \<^verbatim>\<open>FVSData\<close>, \<^verbatim>\<open>FVSRepo\<close> and \<^verbatim>\<open>FVSUtils\<close> live in other modules.
  A state only calls them, so the model records the calls, in order:
  creating an \<^verbatim>\<open>FVSData\<close> transaction, \<^verbatim>\<open>add_file\<close>, \<^verbatim>\<open>delete_file\<close>,
  \<^verbatim>\<open>complete_transaction\<close>, and the write of \<^verbatim>\<open>files.yml\<close>.
\<close>

datatype fvs_file = FVSFile string string string

datatype event =
    DataNew
  | DataAddFile fvs_file
  | DataDeleteFile fvs_file
  | DataComplete
  | StateSaved int fvs_files

text \<open>
  What a state sees of its repository: the id the next commit gets, the
  metadata documents on disk by state id, the calls made so far, and whether
  the content store carries its transaction out (when it does not,
  \<^verbatim>\<open>complete_transaction\<close> raises and the exception leaves the caller).
\<close>

record fvs_repo =
  next_state_id :: int
  saved :: "int \<rightharpoonup> fvs_files"
  calls :: "event list"
  data_ok :: bool

type_synonym world = "fvs_repo \<times> fvs_state"

type_synonym outcome = "error option \<times> world"

text \<open>
  Modelled from the spec: \<^verbatim>\<open>FVSRepo.is_valid_state\<close> is not in the sources; it
  answers with a boolean or raises \<^verbatim>\<open>FVSStateNotFound\<close>. It raises exactly
  when no metadata is stored under the id.
\<close>

definition is_valid_state :: "fvs_repo \<Rightarrow> int \<Rightarrow> error + bool" where
  "is_valid_state r i =
     (case saved r i of None \<Rightarrow> Inl (FVSStateNotFound i) | Some _ \<Rightarrow> Inr True)"

text \<open>
  Modelled from the spec: \<^verbatim>\<open>FVSData\<close> is not in the sources; it exposes
  \<^verbatim>\<open>add_file\<close>, \<^verbatim>\<open>delete_file\<close> and \<^verbatim>\<open>complete_transaction\<close>, the last being
  the point where the queued operations are carried out, or fail as a whole.
\<close>

definition data_new :: "fvs_repo \<Rightarrow> fvs_repo" where
  "data_new r = r\<lparr>calls := calls r @ [DataNew]\<rparr>"

definition add_file :: "fvs_file \<Rightarrow> fvs_repo \<Rightarrow> fvs_repo" where
  "add_file f r = r\<lparr>calls := calls r @ [DataAddFile f]\<rparr>"

definition delete_file :: "fvs_file \<Rightarrow> fvs_repo \<Rightarrow> fvs_repo" where
  "delete_file f r = r\<lparr>calls := calls r @ [DataDeleteFile f]\<rparr>"

definition complete_transaction :: "world \<Rightarrow> outcome" where
  "complete_transaction w =
     (case w of (r, s) \<Rightarrow>
        if data_ok r then (None, r\<lparr>calls := calls r @ [DataComplete]\<rparr>, s)
        else (Some DataFailure, r, s))"

subsection \<open>Python's operators on these values\<close>

text \<open>
  \<^verbatim>\<open>==\<close> on the values above: \<^verbatim>\<open>bool\<close> is a subclass of \<^verbatim>\<open>int\<close>, so
  \<^verbatim>\<open>False == 0\<close> and \<^verbatim>\<open>True == 1\<close>; values of different kinds are unequal
  otherwise. \<^verbatim>\<open>x in [..]\<close> compares \<^verbatim>\<open>x\<close> with each element.
\<close>

fun py_eq :: "pyval \<Rightarrow> pyval \<Rightarrow> bool" where
  "py_eq PyNone PyNone = True"
| "py_eq (PyBool a) (PyBool b) = (a = b)"
| "py_eq (PyBool a) (PyInt n) = ((if a then 1 else 0) = n)"
| "py_eq (PyInt m) (PyBool b) = (m = (if b then 1 else 0))"
| "py_eq (PyInt m) (PyInt n) = (m = n)"
| "py_eq (PyStr a) (PyStr b) = (a = b)"
| "py_eq (PySeq a) (PySeq b) = (a = b)"
| "py_eq _ _ = False"

definition py_in :: "pyval \<Rightarrow> pyval list \<Rightarrow> bool" where
  "py_in x xs = list_ex (py_eq x) xs"

text \<open>\<^verbatim>\<open>d.get(k)\<close> is \<^verbatim>\<open>None\<close> for a missing key; \<^verbatim>\<open>d[k]\<close> raises.\<close>

definition dict_get :: "(string \<rightharpoonup> pyval) \<Rightarrow> string \<Rightarrow> pyval" where
  "dict_get d k = (case d k of None \<Rightarrow> PyNone | Some v \<Rightarrow> v)"

definition dict_item :: "(string \<rightharpoonup> pyval) \<Rightarrow> string \<Rightarrow> error + pyval" where
  "dict_item d k = (case d k of None \<Rightarrow> Inl (KeyError k) | Some v \<Rightarrow> Inr v)"

text \<open>
  \<^verbatim>\<open>for _file in v\<close> followed by \<^verbatim>\<open>_file["file_name"]\<close>: a sequence gives its
  entries; the empty string gives nothing; a character of a string cannot be
  indexed by a string, and \<^verbatim>\<open>None\<close>, booleans and integers cannot be
  iterated: each is a \<^verbatim>\<open>TypeError\<close> before the loop body has had an effect.
\<close>

fun iter_files :: "pyval \<Rightarrow> error + file_entry list" where
  "iter_files (PySeq fs) = Inr fs"
| "iter_files (PyStr []) = Inr []"
| "iter_files _ = Inl TypeError"

definition dict_values :: "partition \<Rightarrow> file_entry list" where
  "dict_values p = map snd p"

definition dict_keys :: "partition \<Rightarrow> string set" where
  "dict_keys p = fst ` set p"

definition dict_contains :: "string \<Rightarrow> partition \<Rightarrow> bool" where
  "dict_contains k p = (map_of p k \<noteq> None)"

definition as_fvs_file :: "file_entry \<Rightarrow> fvs_file" where
  "as_fvs_file f = FVSFile (file_name f) (md5 f) (relative_path f)"

subsection \<open>Construction and loading\<close>

definition init_files :: fvs_files where
  "init_files = \<lparr>count = PyInt 0, added = [], modified = [], removed = [], intact = []\<rparr>"

definition init_state :: fvs_state where
  "init_state = \<lparr>files = init_files, state_id = None, state_path = None\<rparr>"

text \<open>
  \<^verbatim>\<open>FVSState.load(repo, state_id)\<close>: the constructor followed by
  \<^verbatim>\<open>__load_state\<close>. The YAML document read back is the dictionary that was
  dumped.
\<close>

definition load :: "fvs_repo \<Rightarrow> int \<Rightarrow> error + fvs_state" where
  "load r i =
     (case saved r i of
        None \<Rightarrow> Inl (FVSStateNotFound i)
      | Some fs \<Rightarrow> Inr \<lparr>files = fs, state_id = Some i, state_path = Some i\<rparr>)"

subsection \<open>commit\<close>

definition is_initialized :: "fvs_repo \<Rightarrow> bool" where
  "is_initialized r =
     (case is_valid_state r (next_state_id r) of Inl _ \<Rightarrow> False | Inr _ \<Rightarrow> True)"

text \<open>Statements in sequence: an exception ends the run, with the effects so far.\<close>

definition seq :: "(world \<Rightarrow> outcome) \<Rightarrow> (world \<Rightarrow> outcome) \<Rightarrow> world \<Rightarrow> outcome" where
  "seq f g w = (case f w of (None, w') \<Rightarrow> g w' | (Some e, w') \<Rightarrow> (Some e, w'))"

definition set_added :: "string \<Rightarrow> file_entry \<Rightarrow> fvs_state \<Rightarrow> fvs_state" where
  "set_added k v s = s\<lparr>files := (files s)\<lparr>added := AList.update k v (added (files s))\<rparr>\<rparr>"

definition set_modified :: "string \<Rightarrow> file_entry \<Rightarrow> fvs_state \<Rightarrow> fvs_state" where
  "set_modified k v s = s\<lparr>files := (files s)\<lparr>modified := AList.update k v (modified (files s))\<rparr>\<rparr>"

definition set_removed :: "string \<Rightarrow> file_entry \<Rightarrow> fvs_state \<Rightarrow> fvs_state" where
  "set_removed k v s = s\<lparr>files := (files s)\<lparr>removed := AList.update k v (removed (files s))\<rparr>\<rparr>"

definition set_intact :: "string \<Rightarrow> file_entry \<Rightarrow> fvs_state \<Rightarrow> fvs_state" where
  "set_intact k v s = s\<lparr>files := (files s)\<lparr>intact := AList.update k v (intact (files s))\<rparr>\<rparr>"

text \<open>The four loops of \<^verbatim>\<open>commit\<close>, one iteration per equation.\<close>

fun loop_added :: "file_entry list \<Rightarrow> world \<Rightarrow> world" where
  "loop_added [] w = w"
| "loop_added (f # fs) (r, s) =
     loop_added fs (add_file (as_fvs_file f) r, set_added (md5 f) f s)"

fun loop_modified :: "file_entry list \<Rightarrow> world \<Rightarrow> world" where
  "loop_modified [] w = w"
| "loop_modified (f # fs) (r, s) =
     loop_modified fs (add_file (as_fvs_file f) r, set_modified (md5 f) f s)"

fun loop_removed :: "file_entry list \<Rightarrow> world \<Rightarrow> world" where
  "loop_removed [] w = w"
| "loop_removed (f # fs) (r, s) = loop_removed fs (r, set_removed (md5 f) f s)"

fun loop_intact :: "file_entry list \<Rightarrow> world \<Rightarrow> world" where
  "loop_intact [] w = w"
| "loop_intact (f # fs) (r, s) = loop_intact fs (r, set_intact (md5 f) f s)"

definition for_files ::
  "(string \<rightharpoonup> pyval) \<Rightarrow> string \<Rightarrow> (file_entry list \<Rightarrow> world \<Rightarrow> world) \<Rightarrow> world \<Rightarrow> outcome" where
  "for_files d k body w =
     (case dict_item d k of
        Inl e \<Rightarrow> (Some e, w)
      | Inr v \<Rightarrow> (case iter_files v of Inl e \<Rightarrow> (Some e, w) | Inr fs \<Rightarrow> (None, body fs w)))"

definition set_state_id :: "world \<Rightarrow> outcome" where
  "set_state_id w = (case w of (r, s) \<Rightarrow> (None, r, s\<lparr>state_id := Some (next_state_id r)\<rparr>))"

definition set_count :: "(string \<rightharpoonup> pyval) \<Rightarrow> world \<Rightarrow> outcome" where
  "set_count d w =
     (case w of (r, s) \<Rightarrow>
        (case dict_item d ''count'' of
           Inl e \<Rightarrow> (Some e, r, s)
         | Inr c \<Rightarrow> (None, r, s\<lparr>files := (files s)\<lparr>count := c\<rparr>\<rparr>)))"

definition new_fvs_data :: "world \<Rightarrow> outcome" where
  "new_fvs_data w = (case w of (r, s) \<Rightarrow> (None, data_new r, s))"

text \<open>
  \<^verbatim>\<open>__save_state\<close>. Modelled from the spec: \<^verbatim>\<open>FVSRepo.new_state_path_by_id\<close> is
  not in the sources; it resolves or creates the directory of the id, the one
  \<^verbatim>\<open>__load_state\<close> looks into. Every caller has set the id before.
\<close>

definition save_state :: "world \<Rightarrow> outcome" where
  "save_state w =
     (case w of (r, s) \<Rightarrow>
        (case state_id s of
           None \<Rightarrow> (Some TypeError, r, s)
         | Some i \<Rightarrow>
             (None,
              r\<lparr>saved := (saved r)(i \<mapsto> files s), calls := calls r @ [StateSaved i (files s)]\<rparr>,
              s)))"

definition diff_keys :: "string list" where
  "diff_keys = [''count'', ''added'', ''modified'', ''removed'', ''intact'']"

definition wrong_unstaged_dict :: "(string \<rightharpoonup> pyval) \<Rightarrow> bool" where
  "wrong_unstaged_dict d =
     py_in (PyBool False)
       [dict_get d ''count'', dict_get d ''added'', dict_get d ''modified'',
        dict_get d ''removed'', dict_get d ''intact'']"

definition commit_body :: "(string \<rightharpoonup> pyval) \<Rightarrow> world \<Rightarrow> outcome" where
  "commit_body d =
     seq set_state_id
    (seq (set_count d)
    (seq new_fvs_data
    (seq (for_files d ''added'' loop_added)
    (seq (for_files d ''modified'' loop_modified)
    (seq (for_files d ''removed'' loop_removed)
    (seq (for_files d ''intact'' loop_intact)
    (seq complete_transaction
         save_state)))))))"

text \<open>
  \<^verbatim>\<open>commit(message, unstaged_files)\<close>; \<open>caller\<close> is what
  \<^verbatim>\<open>FVSUtils.get_caller_class_name()\<close> answers.
\<close>

definition commit :: "string \<Rightarrow> string option \<Rightarrow> (string \<rightharpoonup> pyval) \<Rightarrow> world \<Rightarrow> outcome" where
  "commit caller message unstaged_files w =
     (if caller \<noteq> ''FVSRepo'' then (Some (FVSCallerWrongClass ''FVSRepo''), w)
      else if is_initialized (fst w) then (Some FVSCommittingToExistingState, w)
      else if message = None \<or> message = Some [] then (Some FVSEmptyCommitMessage, w)
      else if wrong_unstaged_dict unstaged_files then (Some FVSWrongUnstagedDict, w)
      else commit_body unstaged_files w)"

subsection \<open>break\_references\<close>

fun loop_delete :: "file_entry list \<Rightarrow> world \<Rightarrow> world" where
  "loop_delete [] w = w"
| "loop_delete (f # fs) (r, s) = loop_delete fs (delete_file (as_fvs_file f) r, s)"

definition delete_added :: "world \<Rightarrow> outcome" where
  "delete_added w = (None, loop_delete (dict_values (added (files (snd w)))) w)"

definition delete_modified :: "world \<Rightarrow> outcome" where
  "delete_modified w = (None, loop_delete (dict_values (modified (files (snd w)))) w)"

definition break_references :: "string \<Rightarrow> world \<Rightarrow> outcome" where
  "break_references caller w =
     (if caller \<noteq> ''FVSRepo'' then (Some (FVSCallerWrongClass ''FVSRepo''), w)
      else seq new_fvs_data (seq delete_added (seq delete_modified complete_transaction)) w)"

subsection \<open>has\_file and has\_relative\_path\<close>

definition has_file :: "fvs_state \<Rightarrow> string \<Rightarrow> bool" where
  "has_file s h =
     (if dict_contains h (added (files s))
         \<or> dict_contains h (modified (files s))
         \<or> dict_contains h (intact (files s))
      then True else False)"

text \<open>
  \<^verbatim>\<open>self.__files[key]\<close> followed by \<^verbatim>\<open>.values()\<close>: the dictionary has the five
  keys of the constructor and no other, and the count has no values.
\<close>

definition files_item :: "fvs_files \<Rightarrow> string \<Rightarrow> error + partition" where
  "files_item fs key =
     (if key = ''added'' then Inr (added fs)
      else if key = ''modified'' then Inr (modified fs)
      else if key = ''removed'' then Inr (removed fs)
      else if key = ''intact'' then Inr (intact fs)
      else if key = ''count'' then Inl AttributeError
      else Inl (KeyError key))"

text \<open>One loop of \<^verbatim>\<open>has_relative_path\<close>: the first entry with the path, if any.\<close>

fun scan :: "string \<Rightarrow> file_entry list \<Rightarrow> file_entry option" where
  "scan p [] = None"
| "scan p (f # fs) = (if relative_path f = p then Some f else scan p fs)"

definition supported_keys :: "string list" where
  "supported_keys = [''any'', ''added'', ''modified'', ''intact'']"

definition scan_key :: "fvs_state \<Rightarrow> string \<Rightarrow> string \<Rightarrow> error + file_entry option" where
  "scan_key s p key =
     (case files_item (files s) key of
        Inl e \<Rightarrow> Inl e
      | Inr part \<Rightarrow> Inr (scan p (dict_values part)))"

definition has_relative_path :: "fvs_state \<Rightarrow> string \<Rightarrow> string \<Rightarrow> error + file_entry option" where
  "has_relative_path s p key =
     (if key \<notin> set supported_keys then Inl (FVSUnsupportedKey supported_keys)
      else if key = ''any'' then
        (case scan p (dict_values (intact (files s))) of
           Some f \<Rightarrow> Inr (Some f)
         | None \<Rightarrow>
        (case scan p (dict_values (modified (files s))) of
           Some f \<Rightarrow> Inr (Some f)
         | None \<Rightarrow>
        (case scan p (dict_values (added (files s))) of
           Some f \<Rightarrow> Inr (Some f)
         | None \<Rightarrow> scan_key s p key)))
      else scan_key s p key)"

section \<open>Notions used to state the properties\<close>

text \<open>
  What the loops of \<^verbatim>\<open>commit\<close> leave behind: the entries of a sequence stored one
  after the other under their md5; the files a key of the unstaged dictionary
  yields; the calls a commit makes before it completes its transaction; and the
  files of the state after all four loops.
\<close>

definition insert_all :: "file_entry list \<Rightarrow> partition \<Rightarrow> partition" where
  "insert_all fs p = fold (\<lambda>f. AList.update (md5 f) f) fs p"

definition diff_files :: "(string \<rightharpoonup> pyval) \<Rightarrow> string \<Rightarrow> error + file_entry list" where
  "diff_files d k = (case dict_item d k of Inl e \<Rightarrow> Inl e | Inr v \<Rightarrow> iter_files v)"

definition commit_events :: "file_entry list \<Rightarrow> file_entry list \<Rightarrow> event list" where
  "commit_events a m =
     DataNew # map (\<lambda>f. DataAddFile (as_fvs_file f)) a @ map (\<lambda>f. DataAddFile (as_fvs_file f)) m"

definition commit_files :: "fvs_files \<Rightarrow> pyval \<Rightarrow> file_entry list \<Rightarrow> file_entry list \<Rightarrow> file_entry list \<Rightarrow> file_entry list \<Rightarrow> fvs_files" where
  "commit_files fs c a m rm i =
     fs\<lparr>count := c, added := insert_all a (added fs), modified := insert_all m (modified fs),
       removed := insert_all rm (removed fs), intact := insert_all i (intact fs)\<rparr>"

text \<open>
  Calls that only open a transaction or queue a file in it: none of them
  completes a transaction, none writes metadata. A commit that fails after its
  checks has made calls of this kind only, and has stored nothing.
\<close>

fun queues_only :: "event \<Rightarrow> bool" where
  "queues_only DataNew = True"
| "queues_only (DataAddFile _) = True"
| "queues_only _ = False"

definition quiet_failure :: "world \<Rightarrow> outcome \<Rightarrow> bool" where
  "quiet_failure w out =
     (case out of (res, r', s') \<Rightarrow>
        res \<in> {Some (KeyError ''count''), Some (KeyError ''added''), Some (KeyError ''modified''),
          Some (KeyError ''removed''), Some (KeyError ''intact''), Some TypeError, Some DataFailure} \<and>
        saved r' = saved (fst w) \<and>
        (\<exists>pre. calls r' = calls (fst w) @ pre \<and> list_all queues_only pre))"

text \<open>
  Python's truth value of a value, and the reading of a malformed unstaged
  dictionary that goes by it: a key is missing, or its value is falsy.
\<close>

fun py_truthy :: "pyval \<Rightarrow> bool" where
  "py_truthy PyNone = False"
| "py_truthy (PyBool b) = b"
| "py_truthy (PyInt n) = (n \<noteq> 0)"
| "py_truthy (PyStr s) = (s \<noteq> [])"
| "py_truthy (PySeq fs) = (fs \<noteq> [])"

definition spec_malformed_diff :: "(string \<rightharpoonup> pyval) \<Rightarrow> bool" where
  "spec_malformed_diff d =
     list_ex (\<lambda>k. case d k of None \<Rightarrow> True | Some v \<Rightarrow> \<not> py_truthy v) diff_keys"

text \<open>
  No content hash is a key of two partitions.
\<close>

definition partitions_disjoint :: "fvs_files \<Rightarrow> bool" where
  "partitions_disjoint fs \<longleftrightarrow>
     dict_keys (added fs) \<inter> dict_keys (modified fs) = {} \<and>
     dict_keys (added fs) \<inter> dict_keys (removed fs) = {} \<and>
     dict_keys (added fs) \<inter> dict_keys (intact fs) = {} \<and>
     dict_keys (modified fs) \<inter> dict_keys (removed fs) = {} \<and>
     dict_keys (modified fs) \<inter> dict_keys (intact fs) = {} \<and>
     dict_keys (removed fs) \<inter> dict_keys (intact fs) = {}"

subsection \<open>Concrete repositories, states and unstaged dictionaries\<close>

definition entry_a :: file_entry where
  "entry_a = \<lparr>file_name = ''a.txt'', md5 = ''hashA'', relative_path = ''/a''\<rparr>"

definition entry_b :: file_entry where
  "entry_b = \<lparr>file_name = ''b.txt'', md5 = ''hashB'', relative_path = ''/b''\<rparr>"

definition entry_c :: file_entry where
  "entry_c = \<lparr>file_name = ''c.txt'', md5 = ''hashC'', relative_path = ''/c''\<rparr>"

definition entry_d :: file_entry where
  "entry_d = \<lparr>file_name = ''d.txt'', md5 = ''hashD'', relative_path = ''/d''\<rparr>"

definition entry_a_copy :: file_entry where
  "entry_a_copy = \<lparr>file_name = ''copy.txt'', md5 = ''hashA'', relative_path = ''/copy''\<rparr>"

definition entry_a_moved :: file_entry where
  "entry_a_moved = \<lparr>file_name = ''a.txt'', md5 = ''hashE'', relative_path = ''/a''\<rparr>"

definition repo_empty :: fvs_repo where
  "repo_empty = \<lparr>next_state_id = 1, saved = Map.empty, calls = [], data_ok = True\<rparr>"

definition diff_full :: "string \<rightharpoonup> pyval" where
  "diff_full = [''count'' \<mapsto> PyInt 4, ''added'' \<mapsto> PySeq [entry_a],
     ''modified'' \<mapsto> PySeq [entry_b], ''removed'' \<mapsto> PySeq [entry_c],
     ''intact'' \<mapsto> PySeq [entry_d]]"

definition diff_nothing_added :: "string \<rightharpoonup> pyval" where
  "diff_nothing_added = [''count'' \<mapsto> PyInt 3, ''added'' \<mapsto> PySeq [],
     ''modified'' \<mapsto> PySeq [entry_b], ''removed'' \<mapsto> PySeq [entry_c],
     ''intact'' \<mapsto> PySeq [entry_d]]"

definition diff_zero_count :: "string \<rightharpoonup> pyval" where
  "diff_zero_count = [''count'' \<mapsto> PyInt 0, ''added'' \<mapsto> PySeq [entry_a],
     ''modified'' \<mapsto> PySeq [entry_b], ''removed'' \<mapsto> PySeq [entry_c],
     ''intact'' \<mapsto> PySeq [entry_d]]"

definition diff_copied_file :: "string \<rightharpoonup> pyval" where
  "diff_copied_file = [''count'' \<mapsto> PyInt 4, ''added'' \<mapsto> PySeq [entry_a_copy],
     ''modified'' \<mapsto> PySeq [entry_b], ''removed'' \<mapsto> PySeq [entry_c],
     ''intact'' \<mapsto> PySeq [entry_a]]"

definition diff_without_intact :: "string \<rightharpoonup> pyval" where
  "diff_without_intact = [''count'' \<mapsto> PyInt 3, ''added'' \<mapsto> PySeq [entry_a],
     ''modified'' \<mapsto> PySeq [entry_b], ''removed'' \<mapsto> PySeq [entry_c]]"

definition state_full :: fvs_state where
  "state_full = \<lparr>files = \<lparr>count = PyInt 4, added = [(''hashE'', entry_a_moved)],
      modified = [(''hashB'', entry_b)], removed = [(''hashC'', entry_c)],
      intact = [(''hashA'', entry_a), (''hashD'', entry_d)]\<rparr>,
     state_id = Some 1, state_path = Some 1\<rparr>"

section \<open>The loops and the body of commit\<close>

lemma insert_all_simps [simp]:
  "insert_all [] p = p"
  "insert_all (f # fs) p = insert_all fs (AList.update (md5 f) f p)"
  by (simp_all add: insert_all_def)

lemma loop_added_eq:
  "loop_added fs (r, s) =
     (r\<lparr>calls := calls r @ map (\<lambda>f. DataAddFile (as_fvs_file f)) fs\<rparr>,
      s\<lparr>files := (files s)\<lparr>added := insert_all fs (added (files s))\<rparr>\<rparr>)"
  by (induction fs arbitrary: r s) (simp_all add: add_file_def set_added_def)

lemma loop_modified_eq:
  "loop_modified fs (r, s) =
     (r\<lparr>calls := calls r @ map (\<lambda>f. DataAddFile (as_fvs_file f)) fs\<rparr>,
      s\<lparr>files := (files s)\<lparr>modified := insert_all fs (modified (files s))\<rparr>\<rparr>)"
  by (induction fs arbitrary: r s) (simp_all add: add_file_def set_modified_def)

lemma loop_removed_eq:
  "loop_removed fs (r, s) =
     (r, s\<lparr>files := (files s)\<lparr>removed := insert_all fs (removed (files s))\<rparr>\<rparr>)"
  by (induction fs arbitrary: r s) (simp_all add: set_removed_def)

lemma loop_intact_eq:
  "loop_intact fs (r, s) =
     (r, s\<lparr>files := (files s)\<lparr>intact := insert_all fs (intact (files s))\<rparr>\<rparr>)"
  by (induction fs arbitrary: r s) (simp_all add: set_intact_def)

lemma loop_delete_eq:
  "loop_delete fs (r, s) =
     (r\<lparr>calls := calls r @ map (\<lambda>f. DataDeleteFile (as_fvs_file f)) fs\<rparr>, s)"
  by (induction fs arbitrary: r s) (simp_all add: delete_file_def)

lemma for_files_eq:
  "for_files d k body w =
     (case diff_files d k of Inl e \<Rightarrow> (Some e, w) | Inr fs \<Rightarrow> (None, body fs w))"
  by (simp add: for_files_def diff_files_def split: sum.splits)

lemma diff_files_PySeq: "d k = Some (PySeq fs) \<Longrightarrow> diff_files d k = Inr fs"
  by (simp add: diff_files_def dict_item_def)

lemma diff_files_missing: "d k = None \<Longrightarrow> diff_files d k = Inl (KeyError k)"
  by (simp add: diff_files_def dict_item_def)

lemma diff_files_error:
  "diff_files d k = Inl e \<Longrightarrow> e = KeyError k \<or> e = TypeError"
  by (cases "d k"; cases "the (d k)" rule: iter_files.cases)
     (auto simp: diff_files_def dict_item_def)

lemma dict_keys_insert_all: "dict_keys (insert_all fs p) = dict_keys p \<union> md5 ` set fs"
  by (induction fs arbitrary: p) (auto simp: dict_keys_def dom_update)

lemma is_initialized_iff: "is_initialized r \<longleftrightarrow> saved r (next_state_id r) \<noteq> None"
  by (simp add: is_initialized_def is_valid_state_def split: option.splits)

lemma py_eq_False_iff: "py_eq (PyBool False) v \<longleftrightarrow> v = PyBool False \<or> v = PyInt 0"
  by (cases v) auto

lemma wrong_unstaged_dict_iff:
  "wrong_unstaged_dict d \<longleftrightarrow>
     (\<exists>k \<in> set diff_keys. d k = Some (PyBool False) \<or> d k = Some (PyInt 0))"
  by (auto simp: wrong_unstaged_dict_def py_in_def diff_keys_def dict_get_def py_eq_False_iff
      split: option.splits)

lemma queues_only_adds: "list_all queues_only (map (\<lambda>f. DataAddFile (as_fvs_file f)) fs)"
  by (induction fs) simp_all

lemma queues_only_commit_events: "list_all queues_only (commit_events a m)"
  by (simp add: commit_events_def queues_only_adds)

text \<open>
  With the count and the four sequences in place the body runs through: it
  stores the metadata when the content store completes the transaction, and
  stops with the store's failure otherwise.
\<close>

lemma commit_body_ok:
  assumes "dict_item d ''count'' = Inr c"
    and "diff_files d ''added'' = Inr a"
    and "diff_files d ''modified'' = Inr m"
    and "diff_files d ''removed'' = Inr rm"
    and "diff_files d ''intact'' = Inr i"
  shows "commit_body d (r, s) =
     (if data_ok r
      then (None,
            r\<lparr>saved := (saved r)(next_state_id r \<mapsto> commit_files (files s) c a m rm i),
              calls := calls r @ commit_events a m @
                [DataComplete, StateSaved (next_state_id r) (commit_files (files s) c a m rm i)]\<rparr>,
            s\<lparr>files := commit_files (files s) c a m rm i, state_id := Some (next_state_id r)\<rparr>)
      else (Some DataFailure,
            r\<lparr>calls := calls r @ commit_events a m\<rparr>,
            s\<lparr>files := commit_files (files s) c a m rm i, state_id := Some (next_state_id r)\<rparr>))"
  using assms
  by (simp add: commit_body_def seq_def set_state_id_def set_count_def new_fvs_data_def
      data_new_def for_files_eq loop_added_eq loop_modified_eq loop_removed_eq loop_intact_eq
      complete_transaction_def save_state_def commit_events_def commit_files_def)

lemmas commit_body_unfold =
  commit_body_def seq_def set_state_id_def set_count_def new_fvs_data_def
  data_new_def for_files_eq loop_added_eq loop_modified_eq loop_removed_eq loop_intact_eq
  complete_transaction_def save_state_def quiet_failure_def

text \<open>
  Otherwise the body stops at the first key that is missing or cannot be
  iterated, having queued files at most.
\<close>

lemma commit_body_cases:
  "(\<exists>c a m rm i. dict_item d ''count'' = Inr c \<and> diff_files d ''added'' = Inr a \<and>
        diff_files d ''modified'' = Inr m \<and> diff_files d ''removed'' = Inr rm \<and>
        diff_files d ''intact'' = Inr i \<and> data_ok r) \<or>
   quiet_failure (r, s) (commit_body d (r, s))"
proof (cases "dict_item d ''count''")
  case (Inl e)
  then have "e = KeyError ''count''"
    by (auto simp: dict_item_def split: option.splits)
  with Inl show ?thesis by (simp add: commit_body_unfold)
next
  case c: (Inr c)
  show ?thesis
  proof (cases "diff_files d ''added''")
    case (Inl e)
    with c diff_files_error [OF Inl] show ?thesis
      by (auto simp add: commit_body_unfold)
  next
    case a: (Inr a)
    show ?thesis
    proof (cases "diff_files d ''modified''")
      case (Inl e)
      with c a diff_files_error [OF Inl] show ?thesis
        by (auto simp add: commit_body_unfold queues_only_adds)
    next
      case m: (Inr m)
      show ?thesis
      proof (cases "diff_files d ''removed''")
        case (Inl e)
        with c a m diff_files_error [OF Inl] show ?thesis
          by (auto simp add: commit_body_unfold queues_only_adds)
      next
        case rm: (Inr rm)
        show ?thesis
        proof (cases "diff_files d ''intact''")
          case (Inl e)
          with c a m rm diff_files_error [OF Inl] show ?thesis
            by (auto simp add: commit_body_unfold queues_only_adds)
        next
          case i: (Inr i)
          show ?thesis
          proof (cases "data_ok r")
            case True
            with c a m rm i show ?thesis by simp
          next
            case False
            with c a m rm i show ?thesis
              by (simp add: commit_body_ok quiet_failure_def queues_only_commit_events)
          qed
        qed
      qed
    qed
  qed
qed

lemma commit_body_result:
  "commit_body d (r, s) = (res, r', s') \<Longrightarrow>
     (res = None \<longrightarrow>
        (\<exists>pre. calls r' = calls r @ pre @ [DataComplete, StateSaved (next_state_id r) (files s')]
           \<and> list_all queues_only pre) \<and>
        saved r' = (saved r)(next_state_id r \<mapsto> files s') \<and>
        (\<forall>k \<in> set diff_keys. d k \<noteq> None)) \<and>
     (res \<noteq> None \<longrightarrow>
        (\<exists>pre. calls r' = calls r @ pre \<and> list_all queues_only pre) \<and> saved r' = saved r) \<and>
     res \<noteq> Some FVSWrongUnstagedDict \<and> res \<noteq> Some FVSEmptyCommitMessage"
  using commit_body_cases [of d r s]
proof (elim disjE exE conjE)
  fix c a m rm i
  assume ok: "dict_item d ''count'' = Inr c" "diff_files d ''added'' = Inr a"
    "diff_files d ''modified'' = Inr m" "diff_files d ''removed'' = Inr rm"
    "diff_files d ''intact'' = Inr i" "data_ok r"
    and eq: "commit_body d (r, s) = (res, r', s')"
  have keys: "\<forall>k \<in> set diff_keys. d k \<noteq> None"
    using ok by (auto simp: diff_keys_def diff_files_def dict_item_def split: option.splits)
  from eq ok have "res = None" and r': "r' = r\<lparr>saved := (saved r)(next_state_id r \<mapsto> files s'),
      calls := calls r @ commit_events a m @ [DataComplete, StateSaved (next_state_id r) (files s')]\<rparr>"
    by (auto simp: commit_body_ok)
  then show ?thesis using keys queues_only_commit_events [of a m] by auto
next
  assume "quiet_failure (r, s) (commit_body d (r, s))" and "commit_body d (r, s) = (res, r', s')"
  then show ?thesis by (auto simp: quiet_failure_def)
qed

lemma commit_unfold:
  "commit caller message d (r, s) =
     (if caller \<noteq> ''FVSRepo'' then (Some (FVSCallerWrongClass ''FVSRepo''), r, s)
      else if saved r (next_state_id r) \<noteq> None then (Some FVSCommittingToExistingState, r, s)
      else if message = None \<or> message = Some [] then (Some FVSEmptyCommitMessage, r, s)
      else if wrong_unstaged_dict d then (Some FVSWrongUnstagedDict, r, s)
      else commit_body d (r, s))"
  by (simp add: commit_def is_initialized_iff)

lemmas example_defs =
  entry_a_def entry_b_def entry_c_def entry_d_def entry_a_copy_def entry_a_moved_def
  repo_empty_def diff_full_def diff_nothing_added_def diff_zero_count_def diff_copied_file_def
  diff_without_intact_def   state_full_def init_state_def init_files_def

lemmas commit_eval =
  commit_unfold commit_body_def seq_def set_state_id_def set_count_def new_fvs_data_def
  data_new_def for_files_def add_file_def set_added_def set_modified_def set_removed_def
  set_intact_def complete_transaction_def save_state_def dict_item_def
  wrong_unstaged_dict_def py_in_def dict_get_def

text \<open>
  A dictionary without the key \<^verbatim>\<open>intact\<close> passes the check of the structure,
  since \<^verbatim>\<open>.get\<close> gives \<^verbatim>\<open>None\<close> and \<^verbatim>\<open>None\<close> is not equal to \<^verbatim>\<open>False\<close>;
  the commit then stops with a \<^verbatim>\<open>KeyError\<close> at the loop over the key, with
  nothing stored.
\<close>

lemma commit_without_intact_KeyError:
  "\<not> wrong_unstaged_dict diff_without_intact \<and>
   fst (commit ''FVSRepo'' (Some ''first'') diff_without_intact (repo_empty, init_state))
     = Some (KeyError ''intact'') \<and>
   saved (fst (snd (commit ''FVSRepo'' (Some ''first'') diff_without_intact
     (repo_empty, init_state)))) = Map.empty"
  by (simp add: commit_eval example_defs)

lemma scan_eq_find: "scan p fs = find (\<lambda>f. relative_path f = p) fs"
  by (induction fs) simp_all

lemma find_append_cases:
  "find P (xs @ ys) = (case find P xs of None \<Rightarrow> find P ys | Some x \<Rightarrow> Some x)"
  by (induction xs) simp_all

lemma find_Some_mem: "find P xs = Some x \<Longrightarrow> x \<in> set xs \<and> P x"
  by (induction xs) (auto split: if_splits)

lemma has_relative_path_any_no_match:
  "scan p (dict_values (intact (files s)) @ dict_values (modified (files s)) @
      dict_values (added (files s))) = None \<Longrightarrow>
   has_relative_path s p ''any'' = Inl (KeyError ''any'')"
  by (auto simp: has_relative_path_def supported_keys_def scan_key_def files_item_def
      scan_eq_find find_append_cases split: option.splits)

lemma has_relative_path_scoped:
  "key \<in> {''added'', ''modified'', ''intact''} \<Longrightarrow>
   has_relative_path s p key =
     Inr (scan p (dict_values
       (if key = ''added'' then added (files s)
        else if key = ''modified'' then modified (files s) else intact (files s))))"
  by (auto simp: has_relative_path_def supported_keys_def scan_key_def files_item_def)

section \<open>The claims\<close>

subsection \<open>C1: the check of the unstaged dictionary\<close>

text \<open>
  C1, as stated, fails. The unstaged dictionary \<^const>\<open>diff_nothing_added\<close> has all
  five keys, and an empty sequence under \<^verbatim>\<open>added\<close>: a falsy value, so the
  dictionary is malformed in the sense of the claim. \<^verbatim>\<open>False in [...]\<close> compares
  with \<^verbatim>\<open>==\<close>, and \<^verbatim>\<open>False == []\<close> is false: the commit is not rejected with
  \<^verbatim>\<open>FVSWrongUnstagedDict\<close>, it goes through.
\<close>

theorem commit_empty_sequence_counterexample:
  "\<not> (spec_malformed_diff diff_nothing_added \<longrightarrow>
       fst (commit ''FVSRepo'' (Some ''second'') diff_nothing_added (repo_empty, init_state))
         = Some FVSWrongUnstagedDict)"
  by (simp add: spec_malformed_diff_def diff_keys_def commit_eval example_defs)

text \<open>
  C1, amended. For a call of \<^verbatim>\<open>commit\<close> that reaches the check of the unstaged
  dictionary (the caller is \<^verbatim>\<open>FVSRepo\<close>, the next state does not exist, the
  message is not empty) with all five keys present, the commit fails with
  \<^verbatim>\<open>FVSWrongUnstagedDict\<close> exactly when the value of one of the five keys is
  equal to \<^verbatim>\<open>False\<close>, that is, is \<^verbatim>\<open>False\<close> or the integer 0. Other falsy
  values (\<^verbatim>\<open>None\<close>, the empty string, an empty sequence) pass the check.
\<close>

theorem commit_diff_check_rejects_iff:
  assumes "caller = ''FVSRepo''" and "\<not> is_initialized r"
    and "message \<noteq> None" and "message \<noteq> Some []"
    and "\<forall>k \<in> set diff_keys. d k \<noteq> None"
  shows "fst (commit caller message d (r, s)) = Some FVSWrongUnstagedDict \<longleftrightarrow>
         (\<exists>k \<in> set diff_keys. d k = Some (PyBool False) \<or> d k = Some (PyInt 0))"
proof (cases "wrong_unstaged_dict d")
  case True
  with assms show ?thesis
    by (simp add: commit_def wrong_unstaged_dict_iff [symmetric])
next
  case False
  obtain res r' s' where body: "commit_body d (r, s) = (res, r', s')"
    by (cases "commit_body d (r, s)") auto
  from commit_body_result [OF body] have "res \<noteq> Some FVSWrongUnstagedDict" by simp
  with False assms body show ?thesis
    by (simp add: commit_def wrong_unstaged_dict_iff [symmetric])
qed

text \<open>
  C1, an instance of the amended claim: the dictionary with an empty \<^verbatim>\<open>added\<close>
  sequence is not rejected, the one with count 0 is.
\<close>

theorem commit_diff_check_rejects_iff_witness:
  "fst (commit ''FVSRepo'' (Some ''second'') diff_nothing_added (repo_empty, init_state))
     \<noteq> Some FVSWrongUnstagedDict \<and>
   fst (commit ''FVSRepo'' (Some ''second'') diff_zero_count (repo_empty, init_state))
     = Some FVSWrongUnstagedDict"
  using commit_diff_check_rejects_iff [of "''FVSRepo''" repo_empty "Some ''second''"
      diff_nothing_added init_state]
    commit_diff_check_rejects_iff [of "''FVSRepo''" repo_empty "Some ''second''"
      diff_zero_count init_state]
  by (simp add: is_initialized_iff diff_keys_def example_defs)

subsection \<open>C2: has\_relative\_path under the scope any, without a match\<close>

text \<open>
  C2 does not hold of the code. Under the scope \<^verbatim>\<open>any\<close>, when none of the three
  loops returns, control falls through to the loop over
  \<^verbatim>\<open>self.__files[key].values()\<close> with \<^verbatim>\<open>key = "any"\<close>, which is no key of the
  dictionary: on a freshly constructed state the call ends with
  \<^verbatim>\<open>KeyError('any')\<close> where the claim has \<^verbatim>\<open>None\<close>. (The other scopes end in
  the matching entry or \<^verbatim>\<open>None\<close>: \<open>has_relative_path_scoped\<close>.)
\<close>

theorem has_relative_path_any_not_found_KeyError:
  "has_relative_path init_state ''/a'' ''any'' = Inl (KeyError ''any'')"
  by (simp add: has_relative_path_def supported_keys_def scan_key_def files_item_def
      dict_values_def init_state_def init_files_def)

subsection \<open>C3: a failed precondition leaves nothing behind\<close>

text \<open>
  C3. Take a call of \<^verbatim>\<open>commit\<close> whose message is \<^verbatim>\<open>None\<close> or empty, or whose
  unstaged dictionary is rejected by the check, or lacks one of the five keys.
  The call fails; the stored metadata is what it was, so every load answers as
  before; the calls it has made, if any, only opened a transaction and queued
  files: no transaction was completed and no metadata written. When the failure
  is \<^verbatim>\<open>FVSEmptyCommitMessage\<close> or \<^verbatim>\<open>FVSWrongUnstagedDict\<close>, the repository and
  the state are untouched and loading the id the commit would have taken
  raises \<^verbatim>\<open>FVSStateNotFound\<close>.
\<close>

theorem commit_precondition_failure_persists_nothing:
  assumes "message = None \<or> message = Some [] \<or> wrong_unstaged_dict d \<or>
           (\<exists>k \<in> set diff_keys. d k = None)"
    and "commit caller message d (r, s) = (res, r', s')"
  shows "res \<noteq> None \<and> saved r' = saved r \<and>
    (\<exists>pre. calls r' = calls r @ pre \<and> list_all queues_only pre) \<and>
    (\<forall>i. load r' i = load r i) \<and>
    (res = Some FVSEmptyCommitMessage \<or> res = Some FVSWrongUnstagedDict \<longrightarrow>
       r' = r \<and> s' = s \<and>
       load r' (next_state_id r) = Inl (FVSStateNotFound (next_state_id r)))"
proof (cases "caller = ''FVSRepo'' \<and> saved r (next_state_id r) = None \<and>
    message \<noteq> None \<and> message \<noteq> Some [] \<and> \<not> wrong_unstaged_dict d")
  case True
  with assms have body: "commit_body d (r, s) = (res, r', s')"
    and missing: "\<exists>k \<in> set diff_keys. d k = None"
    by (auto simp: commit_unfold)
  from commit_body_result [OF body] missing
  have "res \<noteq> None" and "saved r' = saved r"
    and "\<exists>pre. calls r' = calls r @ pre \<and> list_all queues_only pre"
    and "res \<noteq> Some FVSWrongUnstagedDict" and "res \<noteq> Some FVSEmptyCommitMessage"
    by auto
  then show ?thesis by (simp add: load_def)
next
  case False
  with assms(2) show ?thesis
    by (auto simp: commit_unfold load_def split: if_splits)
qed

text \<open>
  C3, an instance: committing with the message \<^verbatim>\<open>None\<close> into an empty
  repository.
\<close>

theorem commit_precondition_failure_persists_nothing_witness:
  "commit ''FVSRepo'' None diff_full (repo_empty, init_state)
     = (Some FVSEmptyCommitMessage, repo_empty, init_state) \<and>
   load repo_empty 1 = Inl (FVSStateNotFound 1)"
  using commit_precondition_failure_persists_nothing [of None diff_full "''FVSRepo''"
      repo_empty init_state "Some FVSEmptyCommitMessage" repo_empty init_state]
  by (simp add: commit_unfold repo_empty_def)

subsection \<open>C4: commit, then load\<close>

text \<open>
  C4. Let the caller be \<^verbatim>\<open>FVSRepo\<close>, the next state not exist, the message be
  non-empty, the content store carry out its transaction, and the unstaged
  dictionary hold a count that is not equal to \<^verbatim>\<open>False\<close> and a sequence of
  entries under each of the four other keys. Then the commit returns normally,
  and loading the id it took gives a state with exactly the files (the four
  partitions and the count) of the committed state; the count is the one of the
  dictionary.
\<close>

theorem commit_load_roundtrip:
  assumes "caller = ''FVSRepo''" and "\<not> is_initialized r"
    and "message \<noteq> None" and "message \<noteq> Some []" and "data_ok r"
    and "d ''count'' = Some c" and "\<not> py_eq (PyBool False) c"
    and "d ''added'' = Some (PySeq a)" and "d ''modified'' = Some (PySeq m)"
    and "d ''removed'' = Some (PySeq rm)" and "d ''intact'' = Some (PySeq i)"
  shows "\<exists>r' s'. commit caller message d (r, s) = (None, r', s') \<and>
           load r' (next_state_id r) =
             Inr \<lparr>files = files s', state_id = Some (next_state_id r),
                  state_path = Some (next_state_id r)\<rparr> \<and>
           count (files s') = c"
proof -
  have "\<not> wrong_unstaged_dict d"
    using assms by (simp add: wrong_unstaged_dict_def py_in_def dict_get_def)
  moreover have "dict_item d ''count'' = Inr c"
    using assms by (simp add: dict_item_def)
  ultimately show ?thesis
    using assms
    by (simp add: commit_def commit_body_ok diff_files_PySeq load_def commit_files_def)
qed

text \<open>
  C4, an instance: the first commit into an empty repository, loaded back.
\<close>

theorem commit_load_roundtrip_witness:
  "load (fst (snd (commit ''FVSRepo'' (Some ''first'') diff_full (repo_empty, init_state)))) 1 =
     Inr \<lparr>files = \<lparr>count = PyInt 4, added = [(''hashA'', entry_a)],
        modified = [(''hashB'', entry_b)], removed = [(''hashC'', entry_c)],
        intact = [(''hashD'', entry_d)]\<rparr>, state_id = Some 1, state_path = Some 1\<rparr>"
  using commit_load_roundtrip [of "''FVSRepo''" repo_empty "Some ''first''" diff_full "PyInt 4"
      "[entry_a]" "[entry_b]" "[entry_c]" "[entry_d]" init_state]
  by (simp add: is_initialized_iff load_def commit_eval example_defs)

subsection \<open>C5: break\_references\<close>

text \<open>
  C5. Called by \<^verbatim>\<open>FVSRepo\<close>, \<^verbatim>\<open>break_references\<close> opens one transaction, calls
  \<^verbatim>\<open>delete_file\<close> once for each entry of the added partition and then once for
  each entry of the modified partition, in the order of the partitions, and
  ends with the one call of \<^verbatim>\<open>complete_transaction\<close>. It makes no other call,
  and whatever the removed and the intact partitions hold, the calls are the
  same.
\<close>

theorem break_references_deletes_added_and_modified:
  "break_references ''FVSRepo'' (r, s) =
     (if data_ok r then None else Some DataFailure,
      r\<lparr>calls := calls r @ DataNew #
          map (\<lambda>f. DataDeleteFile (as_fvs_file f))
            (dict_values (added (files s)) @ dict_values (modified (files s))) @
          (if data_ok r then [DataComplete] else [])\<rparr>,
      s) \<and>
   fst (snd (break_references caller (r, s\<lparr>files := (files s)\<lparr>removed := rm, intact := i\<rparr>\<rparr>))) =
   fst (snd (break_references caller (r, s)))"
  by (simp add: break_references_def seq_def new_fvs_data_def data_new_def delete_added_def
      delete_modified_def loop_delete_eq complete_transaction_def)

text \<open>
  C5, an instance: a state with one added, one modified, one removed and two
  intact entries gets two deletes.
\<close>

theorem break_references_deletes_added_and_modified_witness:
  "break_references ''FVSRepo'' (repo_empty, state_full) =
     (None,
      repo_empty\<lparr>calls := [DataNew, DataDeleteFile (FVSFile ''a.txt'' ''hashE'' ''/a''),
         DataDeleteFile (FVSFile ''b.txt'' ''hashB'' ''/b''), DataComplete]\<rparr>,
      state_full)"
  using break_references_deletes_added_and_modified [of repo_empty state_full]
  by (simp add: dict_values_def as_fvs_file_def example_defs)

subsection \<open>C6: the search order of the scope any\<close>

text \<open>
  C6. Under the scope \<^verbatim>\<open>any\<close> the removed partition is never searched: whatever
  it holds, and whether or not some entry has the path,
  \<^verbatim>\<open>has_relative_path(path, "any")\<close> ends the same way. The call returns an entry
  exactly when that entry is the first with the relative path among the intact
  values followed by the modified values followed by the added values. So when
  an intact entry has the path, the answer is the first intact entry with it,
  whatever the added partition holds.
\<close>

theorem has_relative_path_any_order:
  "has_relative_path (s\<lparr>files := (files s)\<lparr>removed := rm\<rparr>\<rparr>) p ''any'' =
     has_relative_path s p ''any'' \<and>
   (has_relative_path s p ''any'' = Inr (Some f) \<longleftrightarrow>
      find (\<lambda>f. relative_path f = p)
        (dict_values (intact (files s)) @ dict_values (modified (files s)) @
         dict_values (added (files s))) = Some f) \<and>
   (find (\<lambda>f. relative_path f = p)
      (dict_values (intact (files s)) @ dict_values (modified (files s)) @
       dict_values (added (files s))) = Some f \<longrightarrow>
    has_relative_path s p ''any'' = Inr (Some f) \<and>
    has_relative_path (s\<lparr>files := (files s)\<lparr>removed := rm\<rparr>\<rparr>) p ''any'' = Inr (Some f) \<and>
    ((\<exists>g \<in> set (dict_values (intact (files s))). relative_path g = p) \<longrightarrow>
       f \<in> set (dict_values (intact (files s))) \<and>
       find (\<lambda>f. relative_path f = p) (dict_values (intact (files s))) = Some f))"
proof -
  let ?P = "\<lambda>f. relative_path f = p"
  let ?all = "dict_values (intact (files s)) @ dict_values (modified (files s)) @
    dict_values (added (files s))"
  have indep: "has_relative_path (s\<lparr>files := (files s)\<lparr>removed := rm\<rparr>\<rparr>) p ''any'' =
      has_relative_path s p ''any''"
    by (simp add: has_relative_path_def supported_keys_def scan_key_def files_item_def
        split: option.splits)
  have first: "has_relative_path s p ''any'' = Inr (Some f) \<longleftrightarrow> find ?P ?all = Some f"
    by (auto simp: has_relative_path_def supported_keys_def scan_key_def files_item_def
        scan_eq_find find_append_cases split: option.splits)
  have tie: "find ?P ?all = Some f \<Longrightarrow>
      \<exists>g \<in> set (dict_values (intact (files s))). relative_path g = p \<Longrightarrow>
      f \<in> set (dict_values (intact (files s))) \<and>
      find ?P (dict_values (intact (files s))) = Some f"
    by (auto simp: find_append_cases find_None_iff split: option.splits dest: find_Some_mem)
  from indep first tie show ?thesis by metis
qed

text \<open>
  C6, an instance: the path \<^verbatim>\<open>/a\<close> is in the intact and in the added partition,
  and the intact entry is returned; the path \<^verbatim>\<open>/c\<close> is in the removed partition
  only, and its entry is not returned.
\<close>

theorem has_relative_path_any_order_witness:
  "has_relative_path state_full ''/a'' ''any'' = Inr (Some entry_a) \<and>
   has_relative_path state_full ''/c'' ''any'' \<noteq> Inr (Some entry_c) \<and>
   has_relative_path state_full ''/c'' ''any'' =
     has_relative_path (state_full\<lparr>files := (files state_full)\<lparr>removed := []\<rparr>\<rparr>) ''/c'' ''any''"
  using has_relative_path_any_order [where s = state_full and rm = "[]" and p = "''/a''"
      and f = entry_a]
    has_relative_path_any_order [where s = state_full and rm = "[]" and p = "''/c''"
      and f = entry_c]
  by (simp add: dict_values_def example_defs)

subsection \<open>C7: has\_file\<close>

text \<open>
  C7. \<^verbatim>\<open>has_file(h)\<close> is true exactly when \<open>h\<close> is a key of the added, the
  modified or the intact partition; the removed partition does not count.
\<close>

theorem has_file_iff:
  "(has_file s h \<longleftrightarrow>
      h \<in> dict_keys (added (files s)) \<union> dict_keys (modified (files s)) \<union>
          dict_keys (intact (files s))) \<and>
   has_file (s\<lparr>files := (files s)\<lparr>removed := rm\<rparr>\<rparr>) h = has_file s h"
  by (simp add: has_file_def dict_contains_def dict_keys_def map_of_eq_None_iff)

text \<open>
  C7, an instance: the hashes of the intact, modified and added entries are
  found; the hash of the removed entry and an unknown hash are not.
\<close>

theorem has_file_iff_witness:
  "has_file state_full ''hashA'' \<and> has_file state_full ''hashB'' \<and>
   has_file state_full ''hashE'' \<and> \<not> has_file state_full ''hashC'' \<and>
   \<not> has_file state_full ''hashZ''"
  using has_file_iff [of state_full "''hashA''"] has_file_iff [of state_full "''hashB''"]
    has_file_iff [of state_full "''hashE''"] has_file_iff [of state_full "''hashC''"]
    has_file_iff [of state_full "''hashZ''"]
  by (simp add: dict_keys_def example_defs)

subsection \<open>C8: the keys of the four partitions\<close>

text \<open>
  C8, as stated, fails. A new file that is a copy of an unchanged one has the
  md5 of the unchanged file: the unstaged dictionary \<^const>\<open>diff_copied_file\<close> is
  accepted, and the committed state has the hash as a key of its added and of
  its intact partition.
\<close>

theorem commit_shared_hash_counterexample:
  "fst (commit ''FVSRepo'' (Some ''copy a'') diff_copied_file (repo_empty, init_state)) = None \<and>
   \<not> partitions_disjoint
       (files (snd (snd (commit ''FVSRepo'' (Some ''copy a'') diff_copied_file
          (repo_empty, init_state)))))"
  by (simp add: commit_eval partitions_disjoint_def dict_keys_def example_defs)

text \<open>
  C8, amended. After a successful commit on a freshly constructed state, the
  keys of each partition are the content hashes of the corresponding sequence
  of the unstaged dictionary. So the four partitions have pairwise disjoint
  keys exactly when the four sequences share no content hash; \<^verbatim>\<open>commit\<close> does
  not check that they do not.
\<close>

theorem commit_partition_keys:
  assumes "commit caller message d (r, init_state) = (None, r', s')"
    and "d ''added'' = Some (PySeq a)" and "d ''modified'' = Some (PySeq m)"
    and "d ''removed'' = Some (PySeq rm)" and "d ''intact'' = Some (PySeq i)"
  shows "dict_keys (added (files s')) = md5 ` set a \<and>
     dict_keys (modified (files s')) = md5 ` set m \<and>
     dict_keys (removed (files s')) = md5 ` set rm \<and>
     dict_keys (intact (files s')) = md5 ` set i \<and>
     (partitions_disjoint (files s') \<longleftrightarrow>
        md5 ` set a \<inter> md5 ` set m = {} \<and> md5 ` set a \<inter> md5 ` set rm = {} \<and>
        md5 ` set a \<inter> md5 ` set i = {} \<and> md5 ` set m \<inter> md5 ` set rm = {} \<and>
        md5 ` set m \<inter> md5 ` set i = {} \<and> md5 ` set rm \<inter> md5 ` set i = {})"
proof -
  from assms(1) have body: "commit_body d (r, init_state) = (None, r', s')"
    by (simp add: commit_unfold split: if_splits)
  from commit_body_result [OF body] have "d ''count'' \<noteq> None"
    by (simp add: diff_keys_def)
  then obtain c where "dict_item d ''count'' = Inr c"
    by (auto simp: dict_item_def)
  with body assms(2-5) have "files s' = commit_files init_files c a m rm i"
    by (auto simp: commit_body_ok diff_files_PySeq init_state_def split: if_splits)
  then show ?thesis
    by (simp add: commit_files_def dict_keys_insert_all partitions_disjoint_def)
       (simp add: init_files_def dict_keys_def)
qed

text \<open>
  C8, an instance of the amended claim: four sequences with four different
  hashes.
\<close>

theorem commit_partition_keys_witness:
  "partitions_disjoint
     (files (snd (snd (commit ''FVSRepo'' (Some ''first'') diff_full (repo_empty, init_state)))))"
  using commit_partition_keys [of "''FVSRepo''" "Some ''first''" diff_full repo_empty
      "fst (snd (commit ''FVSRepo'' (Some ''first'') diff_full (repo_empty, init_state)))"
      "snd (snd (commit ''FVSRepo'' (Some ''first'') diff_full (repo_empty, init_state)))"
      "[entry_a]" "[entry_b]" "[entry_c]" "[entry_d]"]
  by (simp add: commit_eval example_defs)

subsection \<open>C9: content before metadata\<close>

text \<open>
  C9. The calls of a successful commit end with \<^verbatim>\<open>complete_transaction\<close>
  followed by the write of the metadata of the new state; everything before
  only opened the transaction and queued files. A commit that fails, also by a
  failure of the content store, has written no metadata.
\<close>

theorem commit_completes_transaction_before_saving:
  assumes "commit caller message d (r, s) = (res, r', s')"
  shows "(res = None \<longrightarrow>
           (\<exists>pre. calls r' = calls r @ pre @
                [DataComplete, StateSaved (next_state_id r) (files s')] \<and>
              list_all queues_only pre) \<and>
           saved r' = (saved r)(next_state_id r \<mapsto> files s')) \<and>
         (res \<noteq> None \<longrightarrow>
           (\<exists>pre. calls r' = calls r @ pre \<and> list_all queues_only pre) \<and>
           saved r' = saved r)"
proof (cases "caller = ''FVSRepo'' \<and> saved r (next_state_id r) = None \<and>
    message \<noteq> None \<and> message \<noteq> Some [] \<and> \<not> wrong_unstaged_dict d")
  case True
  with assms have "commit_body d (r, s) = (res, r', s')"
    by (auto simp: commit_unfold)
  from commit_body_result [OF this] show ?thesis by blast
next
  case False
  with assms show ?thesis
    by (auto simp: commit_unfold split: if_splits)
qed

text \<open>
  C9, an instance: the calls of the first commit into an empty repository.
\<close>

theorem commit_completes_transaction_before_saving_witness:
  "calls (fst (snd (commit ''FVSRepo'' (Some ''first'') diff_full (repo_empty, init_state)))) =
     [DataNew, DataAddFile (FVSFile ''a.txt'' ''hashA'' ''/a''),
      DataAddFile (FVSFile ''b.txt'' ''hashB'' ''/b''), DataComplete,
      StateSaved 1 \<lparr>count = PyInt 4, added = [(''hashA'', entry_a)],
        modified = [(''hashB'', entry_b)], removed = [(''hashC'', entry_c)],
        intact = [(''hashD'', entry_d)]\<rparr>]"
  using commit_completes_transaction_before_saving [of "''FVSRepo''" "Some ''first''" diff_full
      repo_empty init_state None
      "fst (snd (commit ''FVSRepo'' (Some ''first'') diff_full (repo_empty, init_state)))"
      "snd (snd (commit ''FVSRepo'' (Some ''first'') diff_full (repo_empty, init_state)))"]
  by (simp add: commit_eval as_fvs_file_def example_defs)

subsection \<open>C10: a count of zero\<close>

text \<open>
  C10. An unstaged dictionary whose count is the integer 0 is never committed:
  \<^verbatim>\<open>False in [0, ...]\<close> holds since \<^verbatim>\<open>False == 0\<close>. A call that reaches the
  check fails with \<^verbatim>\<open>FVSWrongUnstagedDict\<close> and changes nothing, whatever the
  four sequences are.
\<close>

theorem commit_rejects_zero_count:
  assumes "d ''count'' = Some (PyInt 0)"
  shows "fst (commit caller message d w) \<noteq> None \<and>
    (caller = ''FVSRepo'' \<and> \<not> is_initialized (fst w) \<and> message \<noteq> None \<and> message \<noteq> Some []
       \<longrightarrow> commit caller message d w = (Some FVSWrongUnstagedDict, w))"
proof -
  from assms have "wrong_unstaged_dict d"
    by (simp add: wrong_unstaged_dict_def py_in_def dict_get_def)
  then show ?thesis by (simp add: commit_def)
qed

text \<open>
  C10, an instance: four non-empty sequences and the count 0.
\<close>

theorem commit_rejects_zero_count_witness:
  "commit ''FVSRepo'' (Some ''first'') diff_zero_count (repo_empty, init_state)
     = (Some FVSWrongUnstagedDict, repo_empty, init_state)"
  using commit_rejects_zero_count [of diff_zero_count "''FVSRepo''" "Some ''first''"
      "(repo_empty, init_state)"]
  by (simp add: is_initialized_iff example_defs)

end
